theory Spec2Isabelle
  imports Complex_Main
begin

section \<open>Date objects\<close>

text \<open>
  The leave-request wizard and the follow-up preview (both in
  \<^verbatim>\<open>src/Staff_Availability.tsx\<close>) compute with JavaScript \<^verbatim>\<open>Date\<close> objects through
  \<^verbatim>\<open>getDate\<close>, \<^verbatim>\<open>setDate\<close>, \<^verbatim>\<open>getMonth\<close>, \<^verbatim>\<open>setMonth\<close>, \<^verbatim>\<open>getDay\<close> and the
  seven-argument constructor.  These are modelled by the abstract operations of the
  ECMAScript language specification (section "Date Objects"), on the local time value of
  the object: an integer number of milliseconds, or NaN for an invalid date.  The offset
  between local time and UTC is taken as constant, so that it cancels in every operation
  used here.
\<close>

definition msPerDay :: int where
  "msPerDay = 86400000"

definition Day :: "int \<Rightarrow> int" where
  "Day t = t div msPerDay"

definition TimeWithinDay :: "int \<Rightarrow> int" where
  "TimeWithinDay t = t mod msPerDay"

definition DaysInYear :: "int \<Rightarrow> int" where
  "DaysInYear y =
     (if y mod 4 \<noteq> 0 then 365
      else if y mod 100 \<noteq> 0 then 366
      else if y mod 400 \<noteq> 0 then 365
      else 366)"

definition DayFromYear :: "int \<Rightarrow> int" where
  "DayFromYear y =
     365 * (y - 1970) + (y - 1969) div 4 - (y - 1901) div 100 + (y - 1601) div 400"

text \<open>
  \<^verbatim>\<open>YearFromTime(t)\<close> is specified as the largest year \<open>y\<close> with
  \<open>DayFromYear y \<le> Day t\<close>.  It is computed here from the mean length of a Gregorian
  year (146097 days in 400 years) and corrected by at most one year; the lemmas
  \<open>YearFromTime_bounds\<close> and \<open>YearFromTime_unique\<close> below show that this is the
  specified year.
\<close>

definition YearFromTime :: "int \<Rightarrow> int" where
  "YearFromTime t =
     (let d = Day t; y0 = 1970 + (400 * d) div 146097 in
      if DayFromYear (y0 + 1) \<le> d then y0 + 1
      else if d < DayFromYear y0 then y0 - 1
      else y0)"

definition InLeapYear :: "int \<Rightarrow> int" where
  "InLeapYear t = (if DaysInYear (YearFromTime t) = 365 then 0 else 1)"

definition DayWithinYear :: "int \<Rightarrow> int" where
  "DayWithinYear t = Day t - DayFromYear (YearFromTime t)"

definition MonthFromTime :: "int \<Rightarrow> int" where
  "MonthFromTime t =
     (let d = DayWithinYear t; l = InLeapYear t in
      if d < 31 then 0
      else if d < 59 + l then 1
      else if d < 90 + l then 2
      else if d < 120 + l then 3
      else if d < 151 + l then 4
      else if d < 181 + l then 5
      else if d < 212 + l then 6
      else if d < 243 + l then 7
      else if d < 273 + l then 8
      else if d < 304 + l then 9
      else if d < 334 + l then 10
      else 11)"

definition DateFromTime :: "int \<Rightarrow> int" where
  "DateFromTime t =
     (let d = DayWithinYear t; l = InLeapYear t; m = MonthFromTime t in
      if m = 0 then d + 1
      else if m = 1 then d - 30
      else if m = 2 then d - 58 - l
      else if m = 3 then d - 89 - l
      else if m = 4 then d - 119 - l
      else if m = 5 then d - 150 - l
      else if m = 6 then d - 180 - l
      else if m = 7 then d - 211 - l
      else if m = 8 then d - 242 - l
      else if m = 9 then d - 272 - l
      else if m = 10 then d - 303 - l
      else d - 333 - l)"

definition WeekDay :: "int \<Rightarrow> int" where
  "WeekDay t = (Day t + 4) mod 7"

definition MakeTime :: "int \<Rightarrow> int \<Rightarrow> int \<Rightarrow> int \<Rightarrow> int" where
  "MakeTime hour minute sec ms = hour * 3600000 + minute * 60000 + sec * 1000 + ms"

text \<open>
  \<^verbatim>\<open>MakeDay(year, month, date)\<close> normalises the month into the year
  (\<open>ym\<close>, \<open>mn\<close>), finds the day number of the first of that month and adds
  \<open>date - 1\<close>; a month outside 0..11 and a date outside the month therefore roll over.
  \<open>DaysBeforeMonth\<close> is the day within the year on which month \<open>mn\<close> starts.
  (ECMAScript lets \<^verbatim>\<open>MakeDay\<close> give NaN when the first of the month is itself beyond
  the range of time values; here the day number is computed all the same and
  \<^verbatim>\<open>TimeClip\<close> rejects the resulting time.)
\<close>

definition DaysBeforeMonth :: "int \<Rightarrow> int \<Rightarrow> int" where
  "DaysBeforeMonth mn l =
     (if mn = 0 then 0
      else if mn = 1 then 31
      else if mn = 2 then 59 + l
      else if mn = 3 then 90 + l
      else if mn = 4 then 120 + l
      else if mn = 5 then 151 + l
      else if mn = 6 then 181 + l
      else if mn = 7 then 212 + l
      else if mn = 8 then 243 + l
      else if mn = 9 then 273 + l
      else if mn = 10 then 304 + l
      else 334 + l)"

definition MakeDay :: "int \<Rightarrow> int \<Rightarrow> int \<Rightarrow> int" where
  "MakeDay year month date =
     (let ym = year + month div 12; mn = month mod 12 in
      DayFromYear ym + DaysBeforeMonth mn (if DaysInYear ym = 365 then 0 else 1) + date - 1)"

definition MakeDate :: "int \<Rightarrow> int \<Rightarrow> int" where
  "MakeDate day time = day * msPerDay + time"

text \<open>
  A \<^verbatim>\<open>Date\<close> object holds a time value or NaN.  \<^verbatim>\<open>TimeClip\<close> turns a time beyond
  8.64e15 ms into NaN.  A JavaScript number that is an integer or NaN, such as the result
  of \<^verbatim>\<open>getDate()\<close>, is an \<open>int option\<close> with \<open>None\<close> for NaN.
\<close>

datatype Date = InvalidDate | TimeValue int

definition TimeClip :: "int \<Rightarrow> Date" where
  "TimeClip time = (if \<bar>time\<bar> > 8640000000000000 then InvalidDate else TimeValue time)"

fun getDate :: "Date \<Rightarrow> int option" where
  "getDate InvalidDate = None"
| "getDate (TimeValue t) = Some (DateFromTime t)"

fun getMonth :: "Date \<Rightarrow> int option" where
  "getMonth InvalidDate = None"
| "getMonth (TimeValue t) = Some (MonthFromTime t)"

fun getDay :: "Date \<Rightarrow> int option" where
  "getDay InvalidDate = None"
| "getDay (TimeValue t) = Some (WeekDay t)"

fun setDate :: "Date \<Rightarrow> int option \<Rightarrow> Date" where
  "setDate (TimeValue t) (Some dt) =
     TimeClip (MakeDate (MakeDay (YearFromTime t) (MonthFromTime t) dt) (TimeWithinDay t))"
| "setDate _ _ = InvalidDate"

fun setMonth :: "Date \<Rightarrow> int option \<Rightarrow> Date" where
  "setMonth (TimeValue t) (Some m) =
     TimeClip (MakeDate (MakeDay (YearFromTime t) m (DateFromTime t)) (TimeWithinDay t))"
| "setMonth _ _ = InvalidDate"

text \<open>\<^verbatim>\<open>new Date(year, month, date, hours, minutes, seconds, ms)\<close>: a year from 0 to 99
  stands for 1900 + year.\<close>

fun newDate :: "int option \<Rightarrow> int option \<Rightarrow> int option \<Rightarrow> int \<Rightarrow> int \<Rightarrow> int \<Rightarrow> int \<Rightarrow> Date" where
  "newDate (Some y) (Some m) (Some dt) h mi s ms =
     (let yr = (if 0 \<le> y \<and> y \<le> 99 then 1900 + y else y) in
      TimeClip (MakeDate (MakeDay yr m dt) (MakeTime h mi s ms)))"
| "newDate _ _ _ _ _ _ _ = InvalidDate"

text \<open>Relational comparison of two \<^verbatim>\<open>Date\<close> objects compares their time values; a
  comparison with NaN is false.\<close>

fun date_less :: "Date \<Rightarrow> Date \<Rightarrow> bool" where
  "date_less (TimeValue a) (TimeValue b) = (a < b)"
| "date_less _ _ = False"

fun date_less_eq :: "Date \<Rightarrow> Date \<Rightarrow> bool" where
  "date_less_eq (TimeValue a) (TimeValue b) = (a \<le> b)"
| "date_less_eq _ _ = False"

text \<open>\<^verbatim>\<open>x + n\<close> for a number \<open>x\<close> that may be NaN and an integer \<open>n\<close>.\<close>

definition num_add :: "int option \<Rightarrow> int \<Rightarrow> int option" where
  "num_add x n = map_option (\<lambda>v. v + n) x"

subsection \<open>The year of a day\<close>

lemma div_step:
  assumes "0 < k"
  shows "((a::int) + 1) div k = a div k + (if (a + 1) mod k = 0 then 1 else 0)"
proof -
  define q r where "q = a div k" and "r = a mod k"
  have a: "a = k * q + r" and r: "0 \<le> r" "r < k"
    using assms by (simp_all add: q_def r_def)
  show ?thesis
  proof (cases "r + 1 = k")
    case True
    then have e: "a + 1 = k * (q + 1)" using a by (simp add: algebra_simps)
    have "(a + 1) div k = q + 1" "(a + 1) mod k = 0"
      unfolding e using assms by simp_all
    then show ?thesis by (simp add: q_def)
  next
    case False
    have e: "a + 1 = k * q + (r + 1)" using a by simp
    have "(a + 1) div k = q"
      by (rule int_div_pos_eq[of "a + 1" k q "r + 1"]) (use e r False in auto)
    moreover have "(a + 1) mod k = r + 1"
      by (rule int_mod_pos_eq[of "a + 1" k q "r + 1"]) (use e r False in auto)
    ultimately show ?thesis using r by (simp add: q_def)
  qed
qed

lemma mod4_shift: "((y::int) - 1968) mod 4 = 0 \<longleftrightarrow> y mod 4 = 0"
  using mod_mult_self1[of y "-492" 4] by simp

lemma mod100_shift: "((y::int) - 1900) mod 100 = 0 \<longleftrightarrow> y mod 100 = 0"
  using mod_mult_self1[of y "-19" 100] by simp

lemma mod400_shift: "((y::int) - 1600) mod 400 = 0 \<longleftrightarrow> y mod 400 = 0"
  using mod_mult_self1[of y "-4" 400] by simp

lemma mod100_mod4: "(y::int) mod 100 = 0 \<Longrightarrow> y mod 4 = 0"
  using mod_mod_cancel[of 4 100 y] by simp

lemma mod400_mod100: "(y::int) mod 400 = 0 \<Longrightarrow> y mod 100 = 0"
  using mod_mod_cancel[of 100 400 y] by simp

lemma DayFromYear_Suc: "DayFromYear (y + 1) = DayFromYear y + DaysInYear y"
proof -
  have a: "(y + 1 - 1969) div 4 = (y - 1969) div 4 + (if y mod 4 = 0 then 1 else 0)"
    using div_step[of 4 "y - 1969"] mod4_shift[of y] by (simp add: algebra_simps)
  have b: "(y + 1 - 1901) div 100 = (y - 1901) div 100 + (if y mod 100 = 0 then 1 else 0)"
    using div_step[of 100 "y - 1901"] mod100_shift[of y] by (simp add: algebra_simps)
  have c: "(y + 1 - 1601) div 400 = (y - 1601) div 400 + (if y mod 400 = 0 then 1 else 0)"
    using div_step[of 400 "y - 1601"] mod400_shift[of y] by (simp add: algebra_simps)
  show ?thesis
    unfolding DayFromYear_def DaysInYear_def a b c
    using mod100_mod4[of y] mod400_mod100[of y] by auto
qed

lemma div_bounds:
  assumes "0 < k"
  shows "k * ((a::int) div k) \<le> a \<and> a < k * (a div k) + k"
proof -
  have "a = k * (a div k) + a mod k" by simp
  moreover have "0 \<le> a mod k" "a mod k < k" using assms by simp_all
  ultimately show ?thesis by linarith
qed

lemma div4_bounds: "4 * ((a::int) div 4) \<le> a \<and> a < 4 * (a div 4) + 4"
  by (rule div_bounds) simp

lemma div100_bounds: "100 * ((a::int) div 100) \<le> a \<and> a < 100 * (a div 100) + 100"
  by (rule div_bounds) simp

lemma div400_bounds: "400 * ((a::int) div 400) \<le> a \<and> a < 400 * (a div 400) + 400"
  by (rule div_bounds) simp

lemma div146097_bounds:
  "146097 * ((a::int) div 146097) \<le> a \<and> a < 146097 * (a div 146097) + 146097"
  by (rule div_bounds) simp

lemma linear_lower:
  fixes y q4 q100 q400 :: int
  assumes "4 * q4 \<le> y - 1969 \<and> y - 1969 < 4 * q4 + 4"
      "100 * q100 \<le> y - 1901 \<and> y - 1901 < 100 * q100 + 100"
      "400 * q400 \<le> y - 1601 \<and> y - 1601 < 400 * q400 + 400"
  shows "146097 * (y - 1970) - 607 < 400 * (365 * (y - 1970) + q4 - q100 + q400)"
  using assms by (simp add: algebra_simps)

lemma linear_upper:
  fixes y q4 q100 q400 :: int
  assumes "4 * q4 \<le> y - 1969 \<and> y - 1969 < 4 * q4 + 4"
      "100 * q100 \<le> y - 1901 \<and> y - 1901 < 100 * q100 + 100"
      "400 * q400 \<le> y - 1601 \<and> y - 1601 < 400 * q400 + 400"
  shows "400 * (365 * (y - 1970) + q4 - q100 + q400) \<le> 146097 * (y - 1970) + 593"
  using assms by (simp add: algebra_simps)

lemma DayFromYear_lower: "146097 * (y - 1970) - 607 < 400 * DayFromYear y"
  unfolding DayFromYear_def
  by (rule linear_lower[OF div4_bounds div100_bounds div400_bounds])

lemma DayFromYear_upper: "400 * DayFromYear y \<le> 146097 * (y - 1970) + 593"
  unfolding DayFromYear_def
  by (rule linear_upper[OF div4_bounds div100_bounds div400_bounds])

lemma YearFromTime_bounds:
  "DayFromYear (YearFromTime t) \<le> Day t \<and> Day t < DayFromYear (YearFromTime t + 1)"
proof -
  define d where "d = Day t"
  define y0 where "y0 = 1970 + (400 * d) div 146097"
  have q: "146097 * (y0 - 1970) \<le> 400 * d" "400 * d < 146097 * (y0 - 1970) + 146097"
    using div146097_bounds[of "400 * d"] by (simp_all add: y0_def)
  have lo: "DayFromYear (y0 - 1) \<le> d"
    using DayFromYear_upper[of "y0 - 1"] q by (simp add: algebra_simps)
  have hi: "d < DayFromYear (y0 + 2)"
    using DayFromYear_lower[of "y0 + 2"] q by (simp add: algebra_simps)
  have s: "y0 + 1 + 1 = y0 + 2" "y0 - 1 + 1 = y0" by simp_all
  show ?thesis
    unfolding YearFromTime_def Let_def d_def[symmetric] y0_def[symmetric]
    using lo hi by (simp add: s)
qed

lemma DaysInYear_ge: "365 \<le> DaysInYear y"
  by (simp add: DaysInYear_def)

lemma DaysInYear_le: "DaysInYear y \<le> 366"
  by (simp add: DaysInYear_def)

lemma DayFromYear_add: "0 \<le> n \<Longrightarrow> DayFromYear y + 365 * n \<le> DayFromYear (y + n)"
proof (induction n rule: int_ge_induct)
  case base
  then show ?case by simp
next
  case (step i)
  have "DayFromYear (y + (i + 1)) = DayFromYear (y + i) + DaysInYear (y + i)"
    using DayFromYear_Suc[of "y + i"] by (simp add: add.assoc)
  then show ?case using step DaysInYear_ge[of "y + i"] by (simp add: algebra_simps)
qed

lemma DayFromYear_mono: "y \<le> y' \<Longrightarrow> DayFromYear y \<le> DayFromYear y'"
  using DayFromYear_add[of "y' - y" y] by simp

lemma YearFromTime_unique:
  assumes "DayFromYear y \<le> Day t" "Day t < DayFromYear (y + 1)"
  shows "YearFromTime t = y"
proof (rule ccontr)
  assume ne: "YearFromTime t \<noteq> y"
  have b: "DayFromYear (YearFromTime t) \<le> Day t" "Day t < DayFromYear (YearFromTime t + 1)"
    using YearFromTime_bounds by simp_all
  show False
  proof (cases "YearFromTime t < y")
    case True
    then have "DayFromYear (YearFromTime t + 1) \<le> DayFromYear y"
      by (intro DayFromYear_mono) simp
    with b assms show False by linarith
  next
    case False
    with ne have "y + 1 \<le> YearFromTime t" by simp
    then have "DayFromYear (y + 1) \<le> DayFromYear (YearFromTime t)"
      by (rule DayFromYear_mono)
    with b assms show False by linarith
  qed
qed

subsection \<open>Month and date of a day\<close>

definition DaysInMonth :: "int \<Rightarrow> int \<Rightarrow> int" where
  "DaysInMonth y mn =
     (if mn = 1 then (if DaysInYear y = 365 then 28 else 29)
      else if mn = 3 \<or> mn = 5 \<or> mn = 8 \<or> mn = 10 then 30
      else 31)"

lemma Day_MakeDate: "0 \<le> tod \<Longrightarrow> tod < msPerDay \<Longrightarrow> Day (MakeDate d tod) = d"
  by (simp add: Day_def MakeDate_def msPerDay_def div_pos_pos_trivial)

lemma TimeWithinDay_MakeDate:
  "0 \<le> tod \<Longrightarrow> tod < msPerDay \<Longrightarrow> TimeWithinDay (MakeDate d tod) = tod"
  by (simp add: TimeWithinDay_def MakeDate_def msPerDay_def)

lemma MakeDate_Day: "MakeDate (Day t + n) (TimeWithinDay t) = t + n * msPerDay"
  by (simp add: MakeDate_def Day_def TimeWithinDay_def algebra_simps)

lemma TimeWithinDay_range: "0 \<le> TimeWithinDay t \<and> TimeWithinDay t < msPerDay"
  by (simp add: TimeWithinDay_def msPerDay_def)

lemma InLeapYear_cases: "InLeapYear t = 0 \<or> InLeapYear t = 1"
  by (simp add: InLeapYear_def)

lemma DayWithinYear_range:
  "0 \<le> DayWithinYear t \<and> DayWithinYear t < 365 + InLeapYear t"
proof -
  have "DayFromYear (YearFromTime t + 1) = DayFromYear (YearFromTime t) + DaysInYear (YearFromTime t)"
    by (rule DayFromYear_Suc)
  moreover have "DaysInYear (YearFromTime t) = 365 + InLeapYear t"
    by (simp add: InLeapYear_def DaysInYear_def)
  ultimately show ?thesis
    using YearFromTime_bounds[of t] by (simp add: DayWithinYear_def)
qed

lemma MonthFromTime_range: "0 \<le> MonthFromTime t \<and> MonthFromTime t \<le> 11"
  by (simp add: MonthFromTime_def Let_def)

lemma DateFromTime_eq:
  "DateFromTime t = DayWithinYear t - DaysBeforeMonth (MonthFromTime t) (InLeapYear t) + 1"
  using MonthFromTime_range[of t]
  by (simp add: DateFromTime_def DaysBeforeMonth_def Let_def)

lemma MakeDay_same_month:
  "MakeDay (YearFromTime t) (MonthFromTime t) (DateFromTime t + n) = Day t + n"
proof -
  have m: "MonthFromTime t div 12 = 0" "MonthFromTime t mod 12 = MonthFromTime t"
    using MonthFromTime_range[of t] by simp_all
  show ?thesis
    by (simp add: MakeDay_def Let_def m DateFromTime_eq DayWithinYear_def InLeapYear_def)
qed

lemma setDate_getDate:
  "setDate (TimeValue t) (num_add (getDate (TimeValue t)) n) = TimeClip (t + n * msPerDay)"
  by (simp add: num_add_def MakeDay_same_month MakeDate_Day)

text \<open>The components of a day made from a year, a month in 0..11 and a date within the
  month are that year, month and date.\<close>

lemma month_cases:
  "0 \<le> (mn::int) \<Longrightarrow> mn \<le> 11 \<Longrightarrow>
   mn = 0 \<or> mn = 1 \<or> mn = 2 \<or> mn = 3 \<or> mn = 4 \<or> mn = 5 \<or> mn = 6
      \<or> mn = 7 \<or> mn = 8 \<or> mn = 9 \<or> mn = 10 \<or> mn = 11"
  by presburger

lemma month_table:
  fixes mn l dt :: int
  assumes l01: "l = 0 \<or> l = 1" and m: "0 \<le> mn" "mn \<le> 11"
    and dt: "1 \<le> dt"
      "dt \<le> (if mn = 1 then 28 + l else if mn = 3 \<or> mn = 5 \<or> mn = 8 \<or> mn = 10 then 30 else 31)"
  defines "d \<equiv> DaysBeforeMonth mn l + dt - 1"
  shows "(if d < 31 then 0
      else if d < 59 + l then 1
      else if d < 90 + l then 2
      else if d < 120 + l then 3
      else if d < 151 + l then 4
      else if d < 181 + l then 5
      else if d < 212 + l then 6
      else if d < 243 + l then 7
      else if d < 273 + l then 8
      else if d < 304 + l then 9
      else if d < 334 + l then 10
      else 11) = mn \<and> 0 \<le> d \<and> d < 365 + l"
proof -
  consider "mn = 0" | "mn = 1" | "mn = 2" | "mn = 3" | "mn = 4" | "mn = 5" | "mn = 6"
    | "mn = 7" | "mn = 8" | "mn = 9" | "mn = 10" | "mn = 11"
    using month_cases[OF m] by blast
  then show ?thesis
  proof cases
    case 1 with dt l01 show ?thesis by (auto simp: d_def DaysBeforeMonth_def)
  next
    case 2 with dt l01 show ?thesis by (auto simp: d_def DaysBeforeMonth_def)
  next
    case 3 with dt l01 show ?thesis by (auto simp: d_def DaysBeforeMonth_def)
  next
    case 4 with dt l01 show ?thesis by (auto simp: d_def DaysBeforeMonth_def)
  next
    case 5 with dt l01 show ?thesis by (auto simp: d_def DaysBeforeMonth_def)
  next
    case 6 with dt l01 show ?thesis by (auto simp: d_def DaysBeforeMonth_def)
  next
    case 7 with dt l01 show ?thesis by (auto simp: d_def DaysBeforeMonth_def)
  next
    case 8 with dt l01 show ?thesis by (auto simp: d_def DaysBeforeMonth_def)
  next
    case 9 with dt l01 show ?thesis by (auto simp: d_def DaysBeforeMonth_def)
  next
    case 10 with dt l01 show ?thesis by (auto simp: d_def DaysBeforeMonth_def)
  next
    case 11 with dt l01 show ?thesis by (auto simp: d_def DaysBeforeMonth_def)
  next
    case 12 with dt l01 show ?thesis by (auto simp: d_def DaysBeforeMonth_def)
  qed
qed

lemma components_MakeDay:
  assumes m: "0 \<le> mn" "mn \<le> 11"
    and dt: "1 \<le> dt" "dt \<le> DaysInMonth y mn"
    and tod: "0 \<le> tod" "tod < msPerDay"
  defines "t \<equiv> MakeDate (MakeDay y mn dt) tod"
  shows "YearFromTime t = y \<and> MonthFromTime t = mn \<and> DateFromTime t = dt
    \<and> TimeWithinDay t = tod"
proof -
  define l where "l = (if DaysInYear y = 365 then 0 else 1::int)"
  have l01: "l = 0 \<or> l = 1" by (simp add: l_def)
  have diy: "DaysInYear y = 365 + l"
    by (simp add: l_def DaysInYear_def)
  have mn: "mn div 12 = 0" "mn mod 12 = mn" using m by simp_all
  have D: "Day t = DayFromYear y + DaysBeforeMonth mn l + dt - 1"
    unfolding t_def using tod by (simp add: Day_MakeDate MakeDay_def Let_def mn l_def)
  have dim: "dt \<le> (if mn = 1 then 28 + l
      else if mn = 3 \<or> mn = 5 \<or> mn = 8 \<or> mn = 10 then 30 else 31)"
    using dt(2) by (auto simp: DaysInMonth_def l_def split: if_splits)
  note tab = month_table[OF l01 m dt(1) dim]
  have Y: "YearFromTime t = y"
    by (rule YearFromTime_unique) (use tab D diy in \<open>simp_all add: DayFromYear_Suc\<close>)
  have L: "InLeapYear t = l" by (simp add: InLeapYear_def Y l_def)
  have W: "DayWithinYear t = DaysBeforeMonth mn l + dt - 1"
    by (simp add: DayWithinYear_def Y D)
  have M: "MonthFromTime t = mn"
    unfolding MonthFromTime_def Let_def W L using tab by simp
  have "DateFromTime t = dt"
    unfolding DateFromTime_eq W L M by simp
  moreover have "TimeWithinDay t = tod"
    unfolding t_def using tod by (simp add: TimeWithinDay_MakeDate)
  ultimately show ?thesis using Y M by simp
qed


section \<open>Leave duration\<close>

text \<open>
  \<^verbatim>\<open>parseISODate(val)\<close> splits the value of a date input at \<^verbatim>\<open>"-"\<close>, converts the
  pieces with \<^verbatim>\<open>Number\<close> and builds a \<^verbatim>\<open>Date\<close> at local noon.  \<^verbatim>\<open>Number\<close> is
  modelled on strings of decimal digits (the empty string is 0), which is what the pieces
  of a date input's value are; any other piece is NaN here.  A piece that is missing is
  \<^verbatim>\<open>undefined\<close>, and a NaN or \<^verbatim>\<open>undefined\<close> argument makes the date invalid.
\<close>

primrec splitOn :: "char \<Rightarrow> string \<Rightarrow> string list" where
  "splitOn c [] = [[]]"
| "splitOn c (x # xs) =
     (if x = c then [] # splitOn c xs
      else (case splitOn c xs of [] \<Rightarrow> [[x]] | s # ss \<Rightarrow> (x # s) # ss))"

definition isDigit :: "char \<Rightarrow> bool" where
  "isDigit c = (48 \<le> (of_char c :: nat) \<and> (of_char c :: nat) \<le> 57)"

definition Number :: "string \<Rightarrow> int option" where
  "Number s =
     (if list_all isDigit s
      then Some (foldl (\<lambda>acc c. 10 * acc + (int (of_char c) - 48)) 0 s)
      else None)"

definition element :: "'a option list \<Rightarrow> nat \<Rightarrow> 'a option" where
  "element xs i = (if i < length xs then xs ! i else None)"

definition parseISODate :: "string \<Rightarrow> Date option" where
  "parseISODate val =
     (if val = [] then None
      else
        let parts = map Number (splitOn (CHR ''-'') val);
            y = element parts 0; m = element parts 1; d = element parts 2;
            dt = newDate y (num_add m (- 1)) d 12 0 0 0
        in (case dt of InvalidDate \<Rightarrow> None | TimeValue t \<Rightarrow> Some dt))"

text \<open>\<^verbatim>\<open>isWeekend(date)\<close>: day 0 is Sunday and day 6 is Saturday.\<close>

definition isWeekend :: "Date \<Rightarrow> bool" where
  "isWeekend date = (let day = getDay date in day = Some 0 \<or> day = Some 6)"

text \<open>
  The \<^verbatim>\<open>while\<close> loop of \<^verbatim>\<open>diffBusinessDaysInclusive\<close>, with the cursor and the count
  as its state.  The result \<open>None\<close> stands for a loop that does not return.
\<close>

partial_function (option) diffBusinessDaysInclusive_loop :: "Date \<Rightarrow> Date \<Rightarrow> nat \<Rightarrow> nat option" where
  "diffBusinessDaysInclusive_loop cursor endDate count =
     (if date_less_eq cursor endDate
      then diffBusinessDaysInclusive_loop
             (setDate cursor (num_add (getDate cursor) 1)) endDate
             (if \<not> isWeekend cursor then count + 1 else count)
      else Some count)"

declare diffBusinessDaysInclusive_loop.simps [code]

definition diffBusinessDaysInclusive :: "Date option \<Rightarrow> Date option \<Rightarrow> nat option" where
  "diffBusinessDaysInclusive startDate endDate =
     (case (startDate, endDate) of
        (Some s, Some e) \<Rightarrow>
          if date_less e s then Some 0 else diffBusinessDaysInclusive_loop s e 0
      | _ \<Rightarrow> Some 0)"

text \<open>
  \<^verbatim>\<open>totalDays\<close> of \<^verbatim>\<open>LeaveRequestInitiation\<close>: \<open>startDate\<close> and \<open>endDate\<close> are the
  strings held by the two date inputs, \<open>halfStart\<close> and \<open>halfEnd\<close> the check boxes.
\<close>

definition totalDays :: "string \<Rightarrow> string \<Rightarrow> bool \<Rightarrow> bool \<Rightarrow> rat option" where
  "totalDays startDate endDate halfStart halfEnd =
     (case diffBusinessDaysInclusive (parseISODate startDate) (parseISODate endDate) of
        None \<Rightarrow> None
      | Some businessDays \<Rightarrow>
          Some (let days = of_nat businessDays in
                if days = 0 then 0
                else
                  let days = (if halfStart then days - 1 / 2 else days);
                      days = (if halfEnd \<and> startDate \<noteq> endDate then days - 1 / 2 else days);
                      days = (if days < 0 then 0 else days)
                  in days))"


subsection \<open>The counting loop\<close>

text \<open>\<open>weekdaysFrom t n\<close> is the number of days that are not weekend days among the \<open>n\<close>
  consecutive days that start with the day of \<open>t\<close>.\<close>

fun weekdaysFrom :: "int \<Rightarrow> nat \<Rightarrow> nat" where
  "weekdaysFrom t 0 = 0"
| "weekdaysFrom t (Suc n) =
     (if isWeekend (TimeValue t) then 0 else 1) + weekdaysFrom (t + msPerDay) n"

lemma loop_exit:
  "\<not> date_less_eq cursor endDate \<Longrightarrow>
   diffBusinessDaysInclusive_loop cursor endDate count = Some count"
  by (subst diffBusinessDaysInclusive_loop.simps) simp

lemma loop_step:
  "date_less_eq (TimeValue a) endDate \<Longrightarrow>
   diffBusinessDaysInclusive_loop (TimeValue a) endDate count =
   diffBusinessDaysInclusive_loop (TimeClip (a + msPerDay)) endDate
     (if isWeekend (TimeValue a) then count else count + 1)"
  using setDate_getDate[of a 1]
  by (subst diffBusinessDaysInclusive_loop.simps) simp

lemma msPerDay_pos: "0 < msPerDay"
  by (simp add: msPerDay_def)

lemma loop_total: "\<exists>n. diffBusinessDaysInclusive_loop cursor endDate count = Some n"
proof (cases cursor)
  case InvalidDate
  then show ?thesis by (simp add: loop_exit)
next
  case (TimeValue a0)
  show ?thesis
  proof (cases endDate)
    case InvalidDate
    then show ?thesis by (simp add: loop_exit)
  next
    case (TimeValue b)
    have "\<exists>n. diffBusinessDaysInclusive_loop (Date.TimeValue a) (Date.TimeValue b) count = Some n"
      for a count
    proof (induction "nat (b - a + 1)" arbitrary: a count rule: less_induct)
      case less
      show ?case
      proof (cases "a \<le> b")
        case False
        then show ?thesis by (simp add: loop_exit)
      next
        case True
        show ?thesis
        proof (cases "TimeClip (a + msPerDay)")
          case InvalidDate
          then show ?thesis using True by (simp add: loop_step loop_exit)
        next
          case (TimeValue a')
          then have a': "a' = a + msPerDay" by (simp add: TimeClip_def split: if_splits)
          have "nat (b - a' + 1) < nat (b - a + 1)"
            using True msPerDay_pos by (simp add: a')
          from less[OF this] show ?thesis using True TimeValue by (simp add: loop_step)
        qed
      qed
    qed
    then show ?thesis using TimeValue \<open>cursor = Date.TimeValue a0\<close> by simp
  qed
qed

lemma diffBusinessDaysInclusive_returns:
  "\<exists>n. diffBusinessDaysInclusive startDate endDate = Some n"
  using loop_total by (simp add: diffBusinessDaysInclusive_def split: option.splits)

lemma loop_count:
  assumes "- 8640000000000000 \<le> a" "b \<le> 8640000000000000"
  shows "diffBusinessDaysInclusive_loop (TimeValue a) (TimeValue b) count =
         Some (count + weekdaysFrom a (nat ((b - a) div msPerDay + 1)))"
  using assms(1)
proof (induction "nat ((b - a) div msPerDay + 1)" arbitrary: a count)
  case 0
  have "b - a < 0"
  proof (rule ccontr)
    assume "\<not> b - a < 0"
    then have "0 \<le> (b - a) div msPerDay" using msPerDay_pos by (simp add: pos_imp_zdiv_nonneg_iff)
    with 0 show False by simp
  qed
  then show ?case using 0 by (simp add: loop_exit)
next
  case (Suc k)
  have ab: "a \<le> b"
  proof (rule ccontr)
    assume "\<not> a \<le> b"
    then have "(b - a) div msPerDay < 0" using msPerDay_pos by (simp add: div_neg_pos_less0)
    with Suc(2) show False by simp
  qed
  have dv: "(b - (a + msPerDay)) div msPerDay = (b - a) div msPerDay - 1"
    using div_add_self2[of msPerDay "b - (a + msPerDay)"] msPerDay_pos by (simp add: algebra_simps)
  have k: "k = nat ((b - (a + msPerDay)) div msPerDay + 1)"
    using Suc(2) by (simp add: dv)
  show ?case
  proof (cases "a + msPerDay \<le> 8640000000000000")
    case True
    then have tc: "TimeClip (a + msPerDay) = TimeValue (a + msPerDay)"
      using Suc(3) msPerDay_pos by (simp add: TimeClip_def)
    have "- 8640000000000000 \<le> a + msPerDay" using Suc(3) msPerDay_pos by simp
    from Suc(1)[OF k this]
    show ?thesis using ab Suc(2)[symmetric] by (simp add: loop_step tc k[symmetric])
  next
    case False
    then have tc: "TimeClip (a + msPerDay) = InvalidDate"
      by (simp add: TimeClip_def)
    have "b - (a + msPerDay) < 0" using False assms(2) by simp
    then have "(b - (a + msPerDay)) div msPerDay < 0"
      using msPerDay_pos by (simp add: div_neg_pos_less0)
    then have "k = 0" using k by simp
    then show ?thesis using ab Suc(2)[symmetric] by (simp add: loop_step tc loop_exit)
  qed
qed


lemma TimeClip_valid:
  "TimeClip x = TimeValue t \<Longrightarrow> - 8640000000000000 \<le> t \<and> t \<le> 8640000000000000"
  by (auto simp: TimeClip_def split: if_splits)

lemma newDate_valid:
  "newDate y m dt h mi s ms = TimeValue t \<Longrightarrow>
   - 8640000000000000 \<le> t \<and> t \<le> 8640000000000000"
  by (cases y; cases m; cases dt) (simp_all add: Let_def TimeClip_valid)

lemma parseISODate_valid:
  assumes "parseISODate val = Some d"
  shows "\<exists>t. d = TimeValue t \<and> - 8640000000000000 \<le> t \<and> t \<le> 8640000000000000"
proof -
  define parts where "parts = map Number (splitOn (CHR ''-'') val)"
  define D where
    "D = newDate (element parts 0) (num_add (element parts 1) (- 1)) (element parts 2) 12 0 0 0"
  have "parseISODate val =
        (if val = [] then None else (case D of InvalidDate \<Rightarrow> None | TimeValue t \<Rightarrow> Some D))"
    unfolding parseISODate_def Let_def D_def parts_def by (rule refl)
  with assms obtain t where "D = TimeValue t" "d = D"
    by (auto split: if_splits Date.splits)
  then show ?thesis using newDate_valid[of _ _ _ 12 0 0 0 t] by (auto simp: D_def)
qed

lemma diffBusinessDaysInclusive_count:
  assumes "- 8640000000000000 \<le> a" "b \<le> 8640000000000000"
  shows "diffBusinessDaysInclusive (Some (TimeValue a)) (Some (TimeValue b)) =
         Some (weekdaysFrom a (nat ((b - a) div msPerDay + 1)))"
proof (cases "b < a")
  case True
  then have "(b - a) div msPerDay < 0" using msPerDay_pos by (simp add: div_neg_pos_less0)
  then show ?thesis using True by (simp add: diffBusinessDaysInclusive_def)
next
  case False
  then show ?thesis using loop_count[OF assms, of 0] by (simp add: diffBusinessDaysInclusive_def)
qed

lemma totalDays_eq:
  assumes "diffBusinessDaysInclusive (parseISODate startDate) (parseISODate endDate) = Some n"
  shows "totalDays startDate endDate halfStart halfEnd =
         Some (if n = 0 then 0
               else of_nat n - (if halfStart then 1 / 2 else 0)
                             - (if halfEnd \<and> startDate \<noteq> endDate then 1 / 2 else 0))"
proof (cases n)
  case 0
  then show ?thesis using assms by (simp add: totalDays_def)
next
  case (Suc k)
  have "(0::rat) \<le> of_nat k" by simp
  then show ?thesis using assms Suc by (simp add: totalDays_def Let_def)
qed

lemma weekdaysFrom_zero_iff:
  "weekdaysFrom t n = 0 \<longleftrightarrow> (\<forall>i<n. isWeekend (TimeValue (t + int i * msPerDay)))"
proof (induction n arbitrary: t)
  case 0
  then show ?case by simp
next
  case (Suc n)
  have "(\<forall>i<Suc n. isWeekend (TimeValue (t + int i * msPerDay))) \<longleftrightarrow>
        isWeekend (TimeValue t) \<and> (\<forall>i<n. isWeekend (TimeValue (t + msPerDay + int i * msPerDay)))"
    by (simp add: All_less_Suc2 algebra_simps)
  then show ?case using Suc by simp
qed

lemma WeekDay_add: "WeekDay (t + n * msPerDay) = (WeekDay t + n) mod 7"
proof -
  have "Day (t + n * msPerDay) = Day t + n"
    using msPerDay_pos by (simp add: Day_def)
  then show ?thesis by (simp add: WeekDay_def mod_simps algebra_simps)
qed

lemma isWeekend_WeekDay: "isWeekend (TimeValue t) \<longleftrightarrow> WeekDay t = 0 \<or> WeekDay t = 6"
  by (simp add: isWeekend_def)

lemma weekdaysFrom_Monday:
  assumes "WeekDay a = 1"
  shows "weekdaysFrom a 5 = 5"
proof -
  have w: "\<not> isWeekend (TimeValue (a + n * msPerDay))" if "0 \<le> n" "n \<le> 4" for n
    using that assms WeekDay_add[of a n] by (simp add: isWeekend_WeekDay)
  have "\<not> isWeekend (TimeValue a)"
    "\<not> isWeekend (TimeValue (a + msPerDay))"
    "\<not> isWeekend (TimeValue (a + msPerDay + msPerDay))"
    "\<not> isWeekend (TimeValue (a + msPerDay + msPerDay + msPerDay))"
    "\<not> isWeekend (TimeValue (a + msPerDay + msPerDay + msPerDay + msPerDay))"
    using w[of 0] w[of 1] w[of 2] w[of 3] w[of 4] by (simp_all add: algebra_simps)
  then show ?thesis by (simp add: eval_nat_numeral)
qed

lemma single_day_count:
  assumes "parseISODate d = Some date"
  shows "diffBusinessDaysInclusive (parseISODate d) (parseISODate d) =
         Some (if isWeekend date then 0 else 1)"
proof -
  obtain t where t: "date = TimeValue t" "- 8640000000000000 \<le> t" "t \<le> 8640000000000000"
    using parseISODate_valid[OF assms] by blast
  show ?thesis
    using diffBusinessDaysInclusive_count[OF t(2) t(3)] by (simp add: assms t(1))
qed

subsection \<open>Half-days\<close>

text \<open>
  The leave duration in the words of the specification: the weekday count, less one half
  for each half-day flag that is set and whose boundary day is a counted weekday, the end
  flag only when the two dates differ.
\<close>

definition spec_totalDays :: "string \<Rightarrow> string \<Rightarrow> bool \<Rightarrow> bool \<Rightarrow> rat option" where
  "spec_totalDays startDate endDate halfStart halfEnd =
     (case (parseISODate startDate, parseISODate endDate) of
        (Some s, Some e) \<Rightarrow>
          (case diffBusinessDaysInclusive (Some s) (Some e) of
             None \<Rightarrow> None
           | Some n \<Rightarrow>
               Some (of_nat n
                 - (if halfStart \<and> \<not> isWeekend s \<and> \<not> date_less e s then 1 / 2 else 0)
                 - (if halfEnd \<and> \<not> isWeekend e \<and> \<not> date_less e s \<and> startDate \<noteq> endDate
                    then 1 / 2 else 0)))
      | _ \<Rightarrow> Some 0)"

text \<open>
  Claim C1, as the code has it.  Whenever the range holds at least one weekday,
  \<^verbatim>\<open>totalDays\<close> is the business-day count less one half if the start flag is set and
  less one half if the end flag is set and the two date strings differ; it does not look
  at the weekday of either boundary day.  A single weekday with both flags set gives one
  half, and a range from a Monday to the Friday of the same week gives 5, or 4.5 with the
  start flag.
\<close>

theorem totalDays_half_days:
  "(\<exists>n. diffBusinessDaysInclusive (parseISODate startDate) (parseISODate endDate) = Some n \<and>
        totalDays startDate endDate halfStart halfEnd =
          Some (if n = 0 then 0
                else of_nat n - (if halfStart then 1 / 2 else 0)
                              - (if halfEnd \<and> startDate \<noteq> endDate then 1 / 2 else 0)))
   \<and> (parseISODate d = Some date \<and> \<not> isWeekend date \<longrightarrow>
        totalDays d d True True = Some (1 / 2))
   \<and> (parseISODate mon = Some (TimeValue a) \<and> parseISODate fri = Some (TimeValue (a + 4 * msPerDay))
        \<and> WeekDay a = 1 \<longrightarrow>
        totalDays mon fri False False = Some 5 \<and> totalDays mon fri True False = Some (9 / 2))"
proof (intro conjI impI)
  obtain n where n: "diffBusinessDaysInclusive (parseISODate startDate) (parseISODate endDate) = Some n"
    using diffBusinessDaysInclusive_returns by blast
  show "\<exists>n. diffBusinessDaysInclusive (parseISODate startDate) (parseISODate endDate) = Some n \<and>
        totalDays startDate endDate halfStart halfEnd =
          Some (if n = 0 then 0
                else of_nat n - (if halfStart then 1 / 2 else 0)
                              - (if halfEnd \<and> startDate \<noteq> endDate then 1 / 2 else 0))"
    using n totalDays_eq[OF n] by blast
next
  assume h: "parseISODate d = Some date \<and> \<not> isWeekend date"
  then have "diffBusinessDaysInclusive (parseISODate d) (parseISODate d) = Some 1"
    using single_day_count[of d date] by simp
  from totalDays_eq[OF this] show "totalDays d d True True = Some (1 / 2)" by simp
next
  assume h: "parseISODate mon = Some (TimeValue a) \<and>
    parseISODate fri = Some (TimeValue (a + 4 * msPerDay)) \<and> WeekDay a = 1"
  have va: "- 8640000000000000 \<le> a" using h parseISODate_valid[of mon "TimeValue a"] by simp
  have vb: "a + 4 * msPerDay \<le> 8640000000000000"
    using h parseISODate_valid[of fri "TimeValue (a + 4 * msPerDay)"] by simp
  have "diffBusinessDaysInclusive (parseISODate mon) (parseISODate fri) = Some 5"
    using diffBusinessDaysInclusive_count[OF va vb] h msPerDay_pos
    by (simp add: weekdaysFrom_Monday)
  from totalDays_eq[OF this]
  show "totalDays mon fri False False = Some 5" "totalDays mon fri True False = Some (9 / 2)"
    by simp_all
qed

text \<open>The theorem at Monday 6 January 2025 and Friday 10 January 2025.\<close>

theorem totalDays_half_days_witness:
  "parseISODate ''2025-01-06'' = Some (TimeValue 1736164800000)
   \<and> \<not> isWeekend (TimeValue 1736164800000)
   \<and> totalDays ''2025-01-06'' ''2025-01-06'' True True = Some (1 / 2)
   \<and> parseISODate ''2025-01-10'' = Some (TimeValue (1736164800000 + 4 * msPerDay))
   \<and> WeekDay 1736164800000 = 1
   \<and> totalDays ''2025-01-06'' ''2025-01-10'' False False = Some 5
   \<and> totalDays ''2025-01-06'' ''2025-01-10'' True False = Some (9 / 2)"
proof -
  have p1: "parseISODate ''2025-01-06'' = Some (TimeValue 1736164800000)" by code_simp
  have p2: "parseISODate ''2025-01-10'' = Some (TimeValue (1736164800000 + 4 * msPerDay))"
    by code_simp
  have w: "WeekDay 1736164800000 = 1" by code_simp
  have nw: "\<not> isWeekend (TimeValue 1736164800000)" by (simp add: isWeekend_def w)
  note t = totalDays_half_days[of "''2025-01-06''" "''2025-01-10''" False False
      "''2025-01-06''" "TimeValue 1736164800000" "''2025-01-06''" 1736164800000 "''2025-01-10''"]
  show ?thesis using t p1 p2 w nw by blast
qed

text \<open>
  Saturday 4 January 2025 to Monday 6 January 2025 holds one weekday.  With the start flag
  set the code gives one half, although the start day is a Saturday; the specification's
  wording gives 1.
\<close>

theorem totalDays_weekend_boundary_counterexample:
  "parseISODate ''2025-01-04'' = Some (TimeValue 1735992000000)
   \<and> isWeekend (TimeValue 1735992000000)
   \<and> totalDays ''2025-01-04'' ''2025-01-06'' False False = Some 1
   \<and> totalDays ''2025-01-04'' ''2025-01-06'' True False = Some (1 / 2)
   \<and> spec_totalDays ''2025-01-04'' ''2025-01-06'' True False = Some 1
   \<and> totalDays ''2025-01-04'' ''2025-01-06'' True False
       \<noteq> spec_totalDays ''2025-01-04'' ''2025-01-06'' True False"
  by code_simp

subsection \<open>Edge cases\<close>

text \<open>
  Claim C4.  For the dates parsed from the two inputs and any half-day flags: an end date
  before the start date gives 0; a range in which every day is a Saturday or a Sunday
  gives 0; the result is never negative; and a single day without half-day flags gives 1
  when it is a weekday and 0 when it is a weekend day.
\<close>

theorem totalDays_edge_cases:
  "(parseISODate startDate = Some s \<and> parseISODate endDate = Some e \<and> date_less e s \<longrightarrow>
      totalDays startDate endDate halfStart halfEnd = Some 0)
   \<and> (parseISODate startDate = Some (TimeValue a) \<and> parseISODate endDate = Some (TimeValue b)
        \<and> (\<forall>i < nat ((b - a) div msPerDay + 1). isWeekend (TimeValue (a + int i * msPerDay))) \<longrightarrow>
      totalDays startDate endDate halfStart halfEnd = Some 0)
   \<and> (\<exists>r. totalDays startDate endDate halfStart halfEnd = Some r \<and> 0 \<le> r)
   \<and> (parseISODate d = Some date \<longrightarrow>
      totalDays d d False False = Some (if isWeekend date then 0 else 1))"
proof (intro conjI impI)
  assume h: "parseISODate startDate = Some s \<and> parseISODate endDate = Some e \<and> date_less e s"
  then have "diffBusinessDaysInclusive (parseISODate startDate) (parseISODate endDate) = Some 0"
    by (simp add: diffBusinessDaysInclusive_def)
  from totalDays_eq[OF this] show "totalDays startDate endDate halfStart halfEnd = Some 0"
    by simp
next
  assume h: "parseISODate startDate = Some (TimeValue a) \<and> parseISODate endDate = Some (TimeValue b)
        \<and> (\<forall>i < nat ((b - a) div msPerDay + 1). isWeekend (TimeValue (a + int i * msPerDay)))"
  have va: "- 8640000000000000 \<le> a" using h parseISODate_valid[of startDate "TimeValue a"] by simp
  have vb: "b \<le> 8640000000000000" using h parseISODate_valid[of endDate "TimeValue b"] by simp
  have "weekdaysFrom a (nat ((b - a) div msPerDay + 1)) = 0"
    using h by (simp add: weekdaysFrom_zero_iff)
  then have "diffBusinessDaysInclusive (parseISODate startDate) (parseISODate endDate) = Some 0"
    using diffBusinessDaysInclusive_count[OF va vb] h by simp
  from totalDays_eq[OF this] show "totalDays startDate endDate halfStart halfEnd = Some 0"
    by simp
next
  obtain n where n: "diffBusinessDaysInclusive (parseISODate startDate) (parseISODate endDate) = Some n"
    using diffBusinessDaysInclusive_returns by blast
  show "\<exists>r. totalDays startDate endDate halfStart halfEnd = Some r \<and> 0 \<le> r"
  proof (cases n)
    case 0
    then show ?thesis using totalDays_eq[OF n] by simp
  next
    case (Suc k)
    have "(0::rat) \<le> of_nat k" by simp
    then show ?thesis using totalDays_eq[OF n, of halfStart halfEnd] Suc by simp
  qed
next
  assume h: "parseISODate d = Some date"
  from totalDays_eq[OF single_day_count[OF h]]
  show "totalDays d d False False = Some (if isWeekend date then 0 else 1)" by simp
qed

text \<open>The theorem at Friday 10 to Monday 6 January 2025 (reversed), at the weekend of
  4 and 5 January 2025, and at the single days 6 and 4 January 2025.\<close>

theorem totalDays_edge_cases_witness:
  "parseISODate ''2025-01-10'' = Some (TimeValue 1736510400000)
   \<and> parseISODate ''2025-01-06'' = Some (TimeValue 1736164800000)
   \<and> date_less (TimeValue 1736164800000) (TimeValue 1736510400000)
   \<and> totalDays ''2025-01-10'' ''2025-01-06'' True True = Some 0
   \<and> parseISODate ''2025-01-04'' = Some (TimeValue 1735992000000)
   \<and> parseISODate ''2025-01-05'' = Some (TimeValue 1736078400000)
   \<and> isWeekend (TimeValue 1735992000000) \<and> isWeekend (TimeValue 1736078400000)
   \<and> totalDays ''2025-01-04'' ''2025-01-05'' True True = Some 0
   \<and> totalDays ''2025-01-06'' ''2025-01-06'' False False = Some 1
   \<and> totalDays ''2025-01-04'' ''2025-01-04'' False False = Some 0"
proof -
  have p10: "parseISODate ''2025-01-10'' = Some (TimeValue 1736510400000)" by code_simp
  have p6: "parseISODate ''2025-01-06'' = Some (TimeValue 1736164800000)" by code_simp
  have p4: "parseISODate ''2025-01-04'' = Some (TimeValue 1735992000000)" by code_simp
  have p5: "parseISODate ''2025-01-05'' = Some (TimeValue 1736078400000)" by code_simp
  have w4: "isWeekend (TimeValue 1735992000000)" by code_simp
  have w5: "isWeekend (TimeValue 1736078400000)" by code_simp
  have w6: "\<not> isWeekend (TimeValue 1736164800000)" by code_simp
  have n: "nat ((1736078400000 - 1735992000000) div msPerDay + 1) = 2" by code_simp
  have all: "\<forall>i < nat ((1736078400000 - 1735992000000) div msPerDay + 1).
      isWeekend (TimeValue (1735992000000 + int i * msPerDay))"
    unfolding n using w4 w5 by (simp add: less_Suc_eq numeral_2_eq_2 msPerDay_def)
  have r1: "totalDays ''2025-01-10'' ''2025-01-06'' True True = Some 0"
    using totalDays_edge_cases[of "''2025-01-10''" "TimeValue 1736510400000" "''2025-01-06''"
        "TimeValue 1736164800000" True True] p10 p6 by simp
  have r2: "totalDays ''2025-01-04'' ''2025-01-05'' True True = Some 0"
    using totalDays_edge_cases[of "''2025-01-04''" _ "''2025-01-05''" _ True True
        1735992000000 1736078400000] p4 p5 all by blast
  have r3: "totalDays ''2025-01-06'' ''2025-01-06'' False False = Some 1"
    using totalDays_edge_cases[of _ _ _ _ _ _ _ _ "''2025-01-06''" "TimeValue 1736164800000"]
      p6 w6 by simp
  have r4: "totalDays ''2025-01-04'' ''2025-01-04'' False False = Some 0"
    using totalDays_edge_cases[of _ _ _ _ _ _ _ _ "''2025-01-04''" "TimeValue 1735992000000"]
      p4 w4 by simp
  show ?thesis using p10 p6 p4 p5 w4 w5 r1 r2 r3 r4 by simp
qed

subsection \<open>Termination\<close>

text \<open>
  Claim C9.  \<^verbatim>\<open>diffBusinessDaysInclusive\<close> returns for every pair of arguments.  While
  the cursor is not after the end date, one iteration moves it by exactly one day (or to
  an invalid date beyond the range of time values, which ends the loop) and the loop
  ends as soon as the cursor is after the end date; so for two valid dates the loop runs
  once for each day from the start to the end.  A missing date or an end before the
  start gives 0 at once.
\<close>

theorem diffBusinessDaysInclusive_terminates:
  "(\<exists>n. diffBusinessDaysInclusive startDate endDate = Some n)
   \<and> (date_less_eq (TimeValue c) endD \<longrightarrow>
        diffBusinessDaysInclusive_loop (TimeValue c) endD count =
        diffBusinessDaysInclusive_loop (TimeClip (c + msPerDay)) endD
          (if isWeekend (TimeValue c) then count else count + 1))
   \<and> (\<not> date_less_eq cursor endD \<longrightarrow>
        diffBusinessDaysInclusive_loop cursor endD count = Some count)
   \<and> (- 8640000000000000 \<le> a \<and> b \<le> 8640000000000000 \<longrightarrow>
        diffBusinessDaysInclusive (Some (TimeValue a)) (Some (TimeValue b)) =
        Some (weekdaysFrom a (nat ((b - a) div msPerDay + 1))))
   \<and> (startDate = None \<or> endDate = None \<longrightarrow>
        diffBusinessDaysInclusive startDate endDate = Some 0)
   \<and> (date_less e s \<longrightarrow> diffBusinessDaysInclusive (Some s) (Some e) = Some 0)"
proof (intro conjI impI)
  show "\<exists>n. diffBusinessDaysInclusive startDate endDate = Some n"
    by (rule diffBusinessDaysInclusive_returns)
next
  assume "date_less_eq (TimeValue c) endD"
  then show "diffBusinessDaysInclusive_loop (TimeValue c) endD count =
        diffBusinessDaysInclusive_loop (TimeClip (c + msPerDay)) endD
          (if isWeekend (TimeValue c) then count else count + 1)"
    by (rule loop_step)
next
  assume "\<not> date_less_eq cursor endD"
  then show "diffBusinessDaysInclusive_loop cursor endD count = Some count"
    by (rule loop_exit)
next
  assume "- 8640000000000000 \<le> a \<and> b \<le> 8640000000000000"
  then show "diffBusinessDaysInclusive (Some (TimeValue a)) (Some (TimeValue b)) =
        Some (weekdaysFrom a (nat ((b - a) div msPerDay + 1)))"
    using diffBusinessDaysInclusive_count by blast
next
  assume "startDate = None \<or> endDate = None"
  then show "diffBusinessDaysInclusive startDate endDate = Some 0"
    by (auto simp: diffBusinessDaysInclusive_def split: option.splits)
next
  assume "date_less e s"
  then show "diffBusinessDaysInclusive (Some s) (Some e) = Some 0"
    by (simp add: diffBusinessDaysInclusive_def)
qed

text \<open>The theorem at Monday 6 and Friday 10 January 2025, both at noon.\<close>

theorem diffBusinessDaysInclusive_terminates_witness:
  "date_less_eq (TimeValue 1736164800000) (TimeValue 1736510400000)
   \<and> diffBusinessDaysInclusive_loop (TimeValue 1736164800000) (TimeValue 1736510400000) 0 =
       diffBusinessDaysInclusive_loop (TimeValue 1736251200000) (TimeValue 1736510400000) 1
   \<and> \<not> date_less_eq (TimeValue 1736596800000) (TimeValue 1736510400000)
   \<and> diffBusinessDaysInclusive_loop (TimeValue 1736596800000) (TimeValue 1736510400000) 0 = Some 0
   \<and> diffBusinessDaysInclusive (Some (TimeValue 1736164800000)) (Some (TimeValue 1736510400000)) = Some 5
   \<and> diffBusinessDaysInclusive None (Some (TimeValue 1736510400000)) = Some 0
   \<and> date_less (TimeValue 1736164800000) (TimeValue 1736510400000)
   \<and> diffBusinessDaysInclusive (Some (TimeValue 1736510400000)) (Some (TimeValue 1736164800000)) = Some 0"
proof -
  note t = diffBusinessDaysInclusive_terminates[of None "Some (TimeValue 1736510400000)"
      1736164800000 "TimeValue 1736510400000" 0 "TimeValue 1736596800000"
      1736164800000 1736510400000 "TimeValue 1736164800000" "TimeValue 1736510400000"]
  have tc: "TimeClip (1736164800000 + msPerDay) = TimeValue 1736251200000" by code_simp
  have nw: "\<not> isWeekend (TimeValue 1736164800000)" by code_simp
  have wd: "weekdaysFrom 1736164800000 (nat (345600000 div msPerDay + 1)) = 5"
    by code_simp
  show ?thesis using t tc nw wd by simp
qed


section \<open>Follow-up date\<close>

text \<open>
  \<^verbatim>\<open>addInterval(date, amount, unit)\<close> of the follow-up preview copies the date and moves
  the copy with \<^verbatim>\<open>setDate\<close> or \<^verbatim>\<open>setMonth\<close>.  The amount comes from \<^verbatim>\<open>parseInt\<close> and
  is an integer.
\<close>

definition addInterval :: "Date \<Rightarrow> int \<Rightarrow> string \<Rightarrow> Date" where
  "addInterval date amount unit =
     (let d = date;
          d = (if unit = ''days'' then setDate d (num_add (getDate d) amount) else d);
          d = (if unit = ''weeks'' then setDate d (num_add (getDate d) (amount * 7)) else d);
          d = (if unit = ''months'' then setMonth d (num_add (getMonth d) amount) else d)
      in d)"

subsection \<open>Dates within a month\<close>

lemma date_table:
  fixes d l :: int
  assumes l01: "l = 0 \<or> l = 1" and d: "0 \<le> d" "d < 365 + l"
  defines "m \<equiv> (if d < 31 then 0
      else if d < 59 + l then 1
      else if d < 90 + l then 2
      else if d < 120 + l then 3
      else if d < 151 + l then 4
      else if d < 181 + l then 5
      else if d < 212 + l then 6
      else if d < 243 + l then 7
      else if d < 273 + l then 8
      else if d < 304 + l then 9
      else if d < 334 + l then 10
      else 11 :: int)"
  shows "1 \<le> d - DaysBeforeMonth m l + 1 \<and>
         d - DaysBeforeMonth m l + 1 \<le>
           (if m = 1 then 28 + l else if m = 3 \<or> m = 5 \<or> m = 8 \<or> m = 10 then 30 else 31)"
  using l01 d unfolding m_def DaysBeforeMonth_def by (auto split: if_splits)

lemma DateFromTime_range:
  "1 \<le> DateFromTime t \<and> DateFromTime t \<le> DaysInMonth (YearFromTime t) (MonthFromTime t)"
proof -
  have dim: "DaysInMonth (YearFromTime t) m =
      (if m = 1 then 28 + InLeapYear t else if m = 3 \<or> m = 5 \<or> m = 8 \<or> m = 10 then 30 else 31)"
    for m
    by (simp add: DaysInMonth_def InLeapYear_def)
  show ?thesis
    unfolding DateFromTime_eq dim MonthFromTime_def Let_def
    by (rule date_table[OF InLeapYear_cases[of t] DayWithinYear_range[of t, THEN conjunct1]
        DayWithinYear_range[of t, THEN conjunct2]])
qed

lemma DaysInMonth_range: "28 \<le> DaysInMonth y m \<and> DaysInMonth y m \<le> 31"
  by (simp add: DaysInMonth_def)

text \<open>A date beyond the end of a month is the date of the following month that lies
  as many days after its first.\<close>

lemma MakeDay_overflow:
  assumes m: "0 \<le> mn" "mn \<le> 11"
  shows "MakeDay y mn dt =
         MakeDay (y + (mn + 1) div 12) ((mn + 1) mod 12) (dt - DaysInMonth y mn)"
proof (cases "mn = 11")
  case True
  have "DayFromYear (y + 1) = DayFromYear y + DaysInYear y" by (rule DayFromYear_Suc)
  then show ?thesis
    using True by (simp add: MakeDay_def Let_def DaysBeforeMonth_def DaysInMonth_def DaysInYear_def)
next
  case False
  with m have lt: "mn + 1 \<le> 11" by simp
  have dm: "(mn + 1) div 12 = 0" "(mn + 1) mod 12 = mn + 1" "mn div 12 = 0" "mn mod 12 = mn"
    using m lt by simp_all
  have "DaysBeforeMonth (mn + 1) l = DaysBeforeMonth mn l + DaysInMonth y mn"
    if "l = (if DaysInYear y = 365 then 0 else 1)" for l
    using month_cases[OF m] False that
    by (auto simp: DaysBeforeMonth_def DaysInMonth_def)
  then show ?thesis
    by (simp add: MakeDay_def Let_def dm)
qed

lemma MakeDay_normalise:
  "MakeDay y m dt = MakeDay (y + m div 12) (m mod 12) dt"
  by (simp add: MakeDay_def Let_def)

lemma setMonth_components:
  fixes t n :: int
  defines "y' \<equiv> YearFromTime t + (MonthFromTime t + n) div 12"
    and "m' \<equiv> (MonthFromTime t + n) mod 12"
    and "t' \<equiv> MakeDate (MakeDay (YearFromTime t) (MonthFromTime t + n) (DateFromTime t))
                  (TimeWithinDay t)"
  shows "if DateFromTime t \<le> DaysInMonth y' m'
         then YearFromTime t' = y' \<and> MonthFromTime t' = m' \<and> DateFromTime t' = DateFromTime t
         else YearFromTime t' = y' + (m' + 1) div 12 \<and> MonthFromTime t' = (m' + 1) mod 12
              \<and> DateFromTime t' = DateFromTime t - DaysInMonth y' m'"
proof -
  have m': "0 \<le> m'" "m' \<le> 11" by (simp_all add: m'_def)
  have tod: "0 \<le> TimeWithinDay t" "TimeWithinDay t < msPerDay"
    using TimeWithinDay_range[of t] by simp_all
  have dt: "1 \<le> DateFromTime t" "DateFromTime t \<le> 31"
    using DateFromTime_range[of t] DaysInMonth_range[of "YearFromTime t" "MonthFromTime t"]
    by simp_all
  have t'1: "t' = MakeDate (MakeDay y' m' (DateFromTime t)) (TimeWithinDay t)"
    unfolding t'_def y'_def m'_def by (subst MakeDay_normalise) (rule refl)
  show ?thesis
  proof (cases "DateFromTime t \<le> DaysInMonth y' m'")
    case True
    from components_MakeDay[OF m' dt(1) True tod]
    show ?thesis using True by (simp add: t'1)
  next
    case False
    define y'' where "y'' = y' + (m' + 1) div 12"
    define m'' where "m'' = (m' + 1) mod 12"
    have m'': "0 \<le> m''" "m'' \<le> 11" by (simp_all add: m''_def)
    have t'2: "t' = MakeDate (MakeDay y'' m'' (DateFromTime t - DaysInMonth y' m')) (TimeWithinDay t)"
      unfolding t'1 y''_def m''_def by (subst MakeDay_overflow[OF m']) (rule refl)
    have lo: "1 \<le> DateFromTime t - DaysInMonth y' m'" using False by simp
    have hi: "DateFromTime t - DaysInMonth y' m' \<le> DaysInMonth y'' m''"
      using dt(2) DaysInMonth_range[of y' m'] DaysInMonth_range[of y'' m''] by simp
    from components_MakeDay[OF m'' lo hi tod]
    show ?thesis using False by (simp add: t'2 y''_def m''_def)
  qed
qed

subsection \<open>Days, weeks and months\<close>

text \<open>
  Claim C5.  For a valid reference date and an integer \<open>n\<close>: the unit \<^verbatim>\<open>"days"\<close> gives
  the time exactly \<open>n\<close> days later and \<^verbatim>\<open>"weeks"\<close> the time exactly \<open>7 n\<close> days later
  (both at the same time of day, and clipped to the range of time values); \<^verbatim>\<open>"months"\<close>
  adds \<open>n\<close> to the month, carrying whole years, and keeps the day of the month when the
  target month has that day, while a day past the end of the target month rolls into the
  month that follows it.  Two weeks from any time on 1 January 2025 is the same time on
  15 January 2025.
\<close>

theorem addInterval_units:
  "addInterval (TimeValue t) n ''days'' = TimeClip (t + n * msPerDay)
   \<and> addInterval (TimeValue t) n ''weeks'' = TimeClip (t + n * 7 * msPerDay)
   \<and> addInterval (TimeValue t) n ''months'' =
       TimeClip (MakeDate (MakeDay (YearFromTime t) (MonthFromTime t + n) (DateFromTime t))
                   (TimeWithinDay t))
   \<and> (let y' = YearFromTime t + (MonthFromTime t + n) div 12;
           m' = (MonthFromTime t + n) mod 12;
           t' = MakeDate (MakeDay (YearFromTime t) (MonthFromTime t + n) (DateFromTime t))
                  (TimeWithinDay t)
       in if DateFromTime t \<le> DaysInMonth y' m'
          then YearFromTime t' = y' \<and> MonthFromTime t' = m' \<and> DateFromTime t' = DateFromTime t
          else YearFromTime t' = y' + (m' + 1) div 12 \<and> MonthFromTime t' = (m' + 1) mod 12
               \<and> DateFromTime t' = DateFromTime t - DaysInMonth y' m')
   \<and> (0 \<le> tod \<and> tod < msPerDay \<longrightarrow>
        addInterval (TimeValue (MakeDate (MakeDay 2025 0 1) tod)) 2 ''weeks'' =
        TimeValue (MakeDate (MakeDay 2025 0 15) tod))"
proof (intro conjI impI)
  show "addInterval (TimeValue t) n ''days'' = TimeClip (t + n * msPerDay)"
    using setDate_getDate[of t n] by (simp add: addInterval_def)
  show "addInterval (TimeValue t) n ''weeks'' = TimeClip (t + n * 7 * msPerDay)"
    using setDate_getDate[of t "n * 7"] by (simp add: addInterval_def)
  show "addInterval (TimeValue t) n ''months'' =
       TimeClip (MakeDate (MakeDay (YearFromTime t) (MonthFromTime t + n) (DateFromTime t))
                   (TimeWithinDay t))"
    by (simp add: addInterval_def num_add_def)
  show "let y' = YearFromTime t + (MonthFromTime t + n) div 12;
           m' = (MonthFromTime t + n) mod 12;
           t' = MakeDate (MakeDay (YearFromTime t) (MonthFromTime t + n) (DateFromTime t))
                  (TimeWithinDay t)
       in if DateFromTime t \<le> DaysInMonth y' m'
          then YearFromTime t' = y' \<and> MonthFromTime t' = m' \<and> DateFromTime t' = DateFromTime t
          else YearFromTime t' = y' + (m' + 1) div 12 \<and> MonthFromTime t' = (m' + 1) mod 12
               \<and> DateFromTime t' = DateFromTime t - DaysInMonth y' m'"
    unfolding Let_def by (rule setMonth_components)
next
  assume tod: "0 \<le> tod \<and> tod < msPerDay"
  define t0 where "t0 = MakeDate (MakeDay 2025 0 1) tod"
  have "addInterval (TimeValue t0) 2 ''weeks'' = TimeClip (t0 + 2 * 7 * msPerDay)"
    using setDate_getDate[of t0 "2 * 7"] by (simp add: addInterval_def)
  moreover have "t0 + 2 * 7 * msPerDay = MakeDate (MakeDay 2025 0 15) tod"
    by (simp add: t0_def MakeDate_def MakeDay_def Let_def algebra_simps)
  moreover have "MakeDay 2025 0 15 = 20103" by code_simp
  then have "TimeClip (MakeDate (MakeDay 2025 0 15) tod) = TimeValue (MakeDate (MakeDay 2025 0 15) tod)"
    using tod by (simp add: TimeClip_def MakeDate_def msPerDay_def)
  ultimately show "addInterval (TimeValue (MakeDate (MakeDay 2025 0 1) tod)) 2 ''weeks'' =
        TimeValue (MakeDate (MakeDay 2025 0 15) tod)"
    by (simp add: t0_def)
qed

text \<open>The theorem at noon of 31 January 2025 with one month (3 March 2025), and at noon
  of 1 January 2025 with two weeks.\<close>

theorem addInterval_units_witness:
  "(0::int) \<le> 43200000 \<and> 43200000 < msPerDay
   \<and> addInterval (TimeValue (MakeDate (MakeDay 2025 0 1) 43200000)) 2 ''weeks'' =
       TimeValue (MakeDate (MakeDay 2025 0 15) 43200000)
   \<and> addInterval (TimeValue (MakeDate (MakeDay 2025 0 31) 43200000)) 1 ''months'' =
       TimeValue (MakeDate (MakeDay 2025 2 3) 43200000)"
proof -
  have h: "(0::int) \<le> 43200000 \<and> 43200000 < msPerDay" by (simp add: msPerDay_def)
  have e: "MakeDate (MakeDay 2025 0 31) 43200000 = 1738324800000" by code_simp
  have c: "YearFromTime 1738324800000 = 2025" "MonthFromTime 1738324800000 = 0"
    "DateFromTime 1738324800000 = 31" "TimeWithinDay 1738324800000 = 43200000"
    by code_simp+
  have m: "TimeClip (MakeDate (MakeDay 2025 (0 + 1) 31) 43200000) =
      TimeValue (MakeDate (MakeDay 2025 2 3) 43200000)" by code_simp
  show ?thesis
    using addInterval_units[of 1738324800000 1 43200000] h e c m by simp
qed


subsection \<open>The provisional date of the follow-up form\<close>

text \<open>
  \<^verbatim>\<open>parseInt\<close> with no radix: leading white space is skipped, a sign is read, a prefix
  \<^verbatim>\<open>0x\<close> selects radix 16, and the longest run of digits is the value; no digit gives
  NaN.
\<close>

definition isWhiteSpace :: "char \<Rightarrow> bool" where
  "isWhiteSpace c = ((of_char c :: nat) \<in> {9, 10, 11, 12, 13, 32})"

definition digitValue :: "char \<Rightarrow> nat option" where
  "digitValue c =
     (let k = (of_char c :: nat) in
      if 48 \<le> k \<and> k \<le> 57 then Some (k - 48)
      else if 97 \<le> k \<and> k \<le> 122 then Some (k - 87)
      else if 65 \<le> k \<and> k \<le> 90 then Some (k - 55)
      else None)"

definition isRadixDigit :: "nat \<Rightarrow> char \<Rightarrow> bool" where
  "isRadixDigit R c = (case digitValue c of None \<Rightarrow> False | Some v \<Rightarrow> v < R)"

definition parseInt :: "string \<Rightarrow> int option" where
  "parseInt string =
     (let S = dropWhile isWhiteSpace string;
          sign = (if S \<noteq> [] \<and> hd S = CHR ''-'' then - 1 else 1 :: int);
          S = (if S \<noteq> [] \<and> (hd S = CHR ''+'' \<or> hd S = CHR ''-'') then tl S else S);
          hex = (take 2 S = ''0x'' \<or> take 2 S = ''0X'');
          R = (if hex then 16 else 10);
          S = (if hex then drop 2 S else S);
          Z = takeWhile (isRadixDigit R) S
      in if Z = [] then None
         else Some (sign * int (foldl (\<lambda>acc c. R * acc + (case digitValue c of None \<Rightarrow> 0 | Some v \<Rightarrow> v)) 0 Z)))"


text \<open>
  The state of \<^verbatim>\<open>EyePrescriptionFollowUpPreview\<close>: the four form values, the
  \<^verbatim>\<open>showProvisional\<close> flag, and the memoised \<^verbatim>\<open>computedProvisionalDate\<close>.
\<close>

record FollowUpState =
  followUp :: bool
  followUpIntervalValue :: string
  followUpIntervalUnit :: string
  provisionalFollowUpDate :: "Date option"
  showProvisional :: bool
  computedProvisionalDate :: "Date option"

definition initialState :: FollowUpState where
  "initialState =
     \<lparr>followUp = False, followUpIntervalValue = '''', followUpIntervalUnit = '''',
      provisionalFollowUpDate = None, showProvisional = False, computedProvisionalDate = None\<rparr>"

text \<open>The body of the \<^verbatim>\<open>useMemo\<close> callback; \<open>now\<close> is the value of \<^verbatim>\<open>new Date()\<close>.
  A parsed value that is NaN or 0 is falsy, and so is an empty unit.\<close>

definition computeProvisionalDate :: "Date \<Rightarrow> FollowUpState \<Rightarrow> Date option" where
  "computeProvisionalDate now st =
     (case parseInt (followUpIntervalValue st) of
        None \<Rightarrow> None
      | Some v \<Rightarrow>
          if showProvisional st \<and> v \<noteq> 0 \<and> followUpIntervalUnit st \<noteq> ''''
          then Some (addInterval now v (followUpIntervalUnit st))
          else None)"

text \<open>The body of the \<^verbatim>\<open>useEffect\<close> callback: \<^verbatim>\<open>setValue\<close> writes the computed date
  into the field.\<close>

definition syncProvisionalDate :: "FollowUpState \<Rightarrow> FollowUpState" where
  "syncProvisionalDate st =
     (if showProvisional st \<and> computedProvisionalDate st \<noteq> None
         \<and> provisionalFollowUpDate st = None
      then st\<lparr>provisionalFollowUpDate := computedProvisionalDate st\<rparr>
      else st)"

text \<open>
  What the user can do, and one step of the component: the handler updates the state, the
  memo is computed again when one of its dependencies (interval value, unit,
  \<^verbatim>\<open>showProvisional\<close>) has changed, and the effect runs when one of its dependencies
  (\<^verbatim>\<open>showProvisional\<close>, the computed date, the field) has changed.  Each event comes with
  the clock reading of its render.
\<close>

datatype Event =
    ChangeFollowUp bool
  | ChangeIntervalValue string
  | ChangeIntervalUnit string
  | ToggleProvisional
  | PickDate "Date option"

fun handleEvent :: "Event \<Rightarrow> FollowUpState \<Rightarrow> FollowUpState" where
  "handleEvent (ChangeFollowUp b) st = st\<lparr>followUp := b\<rparr>"
| "handleEvent (ChangeIntervalValue v) st = st\<lparr>followUpIntervalValue := v\<rparr>"
| "handleEvent (ChangeIntervalUnit u) st = st\<lparr>followUpIntervalUnit := u\<rparr>"
| "handleEvent ToggleProvisional st = st\<lparr>showProvisional := \<not> showProvisional st\<rparr>"
| "handleEvent (PickDate d) st = st\<lparr>provisionalFollowUpDate := d\<rparr>"

definition memoDepsChanged :: "FollowUpState \<Rightarrow> FollowUpState \<Rightarrow> bool" where
  "memoDepsChanged old new =
     (followUpIntervalValue old \<noteq> followUpIntervalValue new
      \<or> followUpIntervalUnit old \<noteq> followUpIntervalUnit new
      \<or> showProvisional old \<noteq> showProvisional new)"

definition effectDepsChanged :: "FollowUpState \<Rightarrow> FollowUpState \<Rightarrow> bool" where
  "effectDepsChanged old new =
     (showProvisional old \<noteq> showProvisional new
      \<or> (memoDepsChanged old new
          \<and> (computedProvisionalDate old \<noteq> None \<or> computedProvisionalDate new \<noteq> None))
      \<or> provisionalFollowUpDate old \<noteq> provisionalFollowUpDate new)"

definition render :: "Date \<Rightarrow> FollowUpState \<Rightarrow> FollowUpState \<Rightarrow> FollowUpState" where
  "render now old new =
     (let new = (if memoDepsChanged old new
                 then new\<lparr>computedProvisionalDate := computeProvisionalDate now new\<rparr>
                 else new)
      in if effectDepsChanged old new then syncProvisionalDate new else new)"

definition step :: "FollowUpState \<Rightarrow> Date \<times> Event \<Rightarrow> FollowUpState" where
  "step st e = render (fst e) st (handleEvent (snd e) st)"

definition run :: "FollowUpState \<Rightarrow> (Date \<times> Event) list \<Rightarrow> FollowUpState" where
  "run st es = foldl step st es"

fun isIntervalChange :: "Event \<Rightarrow> bool" where
  "isIntervalChange (ChangeIntervalValue v) = True"
| "isIntervalChange (ChangeIntervalUnit u) = True"
| "isIntervalChange _ = False"

lemma sync_keeps: "provisionalFollowUpDate st = Some d \<Longrightarrow>
  provisionalFollowUpDate (syncProvisionalDate st) = Some d"
  by (simp add: syncProvisionalDate_def)

lemma step_keeps:
  assumes "provisionalFollowUpDate st = Some d" "isIntervalChange (snd e)"
  shows "provisionalFollowUpDate (step st e) = Some d"
proof -
  have "provisionalFollowUpDate (handleEvent (snd e) st) = Some d"
    using assms by (cases "snd e") simp_all
  then show ?thesis
    by (simp add: step_def render_def Let_def sync_keeps)
qed

lemma run_keeps:
  assumes "provisionalFollowUpDate st = Some d" "list_all (\<lambda>e. isIntervalChange (snd e)) es"
  shows "provisionalFollowUpDate (run st es) = Some d"
  using assms unfolding run_def
  by (induction es arbitrary: st) (simp_all add: step_keeps)


text \<open>
  Claim C6.  Once the provisional follow-up date field holds a date, no sequence of
  changes to the interval amount or unit changes it; the sync step changes the field only
  when the field is empty, and then writes the computed date.
\<close>

theorem provisionalFollowUpDate_kept:
  "(provisionalFollowUpDate st = Some d \<and> list_all (\<lambda>e. isIntervalChange (snd e)) es \<longrightarrow>
      provisionalFollowUpDate (run st es) = Some d)
   \<and> (provisionalFollowUpDate (syncProvisionalDate st) \<noteq> provisionalFollowUpDate st \<longrightarrow>
      provisionalFollowUpDate st = None
      \<and> provisionalFollowUpDate (syncProvisionalDate st) = computedProvisionalDate st)
   \<and> (provisionalFollowUpDate st = None \<and> showProvisional st
        \<and> computedProvisionalDate st = Some c \<longrightarrow>
      provisionalFollowUpDate (syncProvisionalDate st) = Some c)"
  using run_keeps[of st d es]
  by (auto simp: syncProvisionalDate_def split: if_splits)

text \<open>
  The theorem at a form filled on 1 January 2025 with "2 weeks": the field is first
  filled with 15 January; after the user has picked 1 February, changing the interval to
  "3 months" leaves 1 February in the field.
\<close>

theorem provisionalFollowUpDate_kept_witness:
  "run initialState
     [(TimeValue 1735732800000, ChangeFollowUp True),
      (TimeValue 1735732800000, ChangeIntervalValue ''2''),
      (TimeValue 1735732800000, ChangeIntervalUnit ''weeks''),
      (TimeValue 1735732800000, ToggleProvisional)]
   = \<lparr>followUp = True, followUpIntervalValue = ''2'', followUpIntervalUnit = ''weeks'',
      provisionalFollowUpDate = Some (TimeValue 1736942400000), showProvisional = True,
      computedProvisionalDate = Some (TimeValue 1736942400000)\<rparr>
   \<and> provisionalFollowUpDate
       (run \<lparr>followUp = True, followUpIntervalValue = ''2'', followUpIntervalUnit = ''weeks'',
             provisionalFollowUpDate = Some (TimeValue 1738411200000), showProvisional = True,
             computedProvisionalDate = Some (TimeValue 1736942400000)\<rparr>
          [(TimeValue 1735732800000, ChangeIntervalValue ''3''),
           (TimeValue 1735732800000, ChangeIntervalUnit ''months'')])
     = Some (TimeValue 1738411200000)
   \<and> provisionalFollowUpDate
       (syncProvisionalDate
          \<lparr>followUp = True, followUpIntervalValue = ''2'', followUpIntervalUnit = ''weeks'',
           provisionalFollowUpDate = None, showProvisional = True,
           computedProvisionalDate = Some (TimeValue 1736942400000)\<rparr>)
     = Some (TimeValue 1736942400000)"
proof -
  have a: "run initialState
     [(TimeValue 1735732800000, ChangeFollowUp True),
      (TimeValue 1735732800000, ChangeIntervalValue ''2''),
      (TimeValue 1735732800000, ChangeIntervalUnit ''weeks''),
      (TimeValue 1735732800000, ToggleProvisional)]
   = \<lparr>followUp = True, followUpIntervalValue = ''2'', followUpIntervalUnit = ''weeks'',
      provisionalFollowUpDate = Some (TimeValue 1736942400000), showProvisional = True,
      computedProvisionalDate = Some (TimeValue 1736942400000)\<rparr>"
    by code_simp
  have b: "provisionalFollowUpDate
       (run \<lparr>followUp = True, followUpIntervalValue = ''2'', followUpIntervalUnit = ''weeks'',
             provisionalFollowUpDate = Some (TimeValue 1738411200000), showProvisional = True,
             computedProvisionalDate = Some (TimeValue 1736942400000)\<rparr>
          [(TimeValue 1735732800000, ChangeIntervalValue ''3''),
           (TimeValue 1735732800000, ChangeIntervalUnit ''months'')])
     = Some (TimeValue 1738411200000)"
    using provisionalFollowUpDate_kept[of
        "\<lparr>followUp = True, followUpIntervalValue = ''2'', followUpIntervalUnit = ''weeks'',
             provisionalFollowUpDate = Some (TimeValue 1738411200000), showProvisional = True,
             computedProvisionalDate = Some (TimeValue 1736942400000)\<rparr>"
        "TimeValue 1738411200000"
        "[(TimeValue 1735732800000, ChangeIntervalValue ''3''),
           (TimeValue 1735732800000, ChangeIntervalUnit ''months'')]"]
    by simp
  have c: "provisionalFollowUpDate
       (syncProvisionalDate
          \<lparr>followUp = True, followUpIntervalValue = ''2'', followUpIntervalUnit = ''weeks'',
           provisionalFollowUpDate = None, showProvisional = True,
           computedProvisionalDate = Some (TimeValue 1736942400000)\<rparr>)
     = Some (TimeValue 1736942400000)"
    using provisionalFollowUpDate_kept[of
        "\<lparr>followUp = True, followUpIntervalValue = ''2'', followUpIntervalUnit = ''weeks'',
           provisionalFollowUpDate = None, showProvisional = True,
           computedProvisionalDate = Some (TimeValue 1736942400000)\<rparr>"
        _ _ "TimeValue 1736942400000"]
    by simp
  show ?thesis using a b c by blast
qed


section \<open>Form validation\<close>

text \<open>
  The forms validate with zod schemas.  A schema's \<^verbatim>\<open>superRefine\<close> or \<^verbatim>\<open>refine\<close>
  callback is called with the parsed object \<open>data\<close>, once every field has a value of its
  declared type, and each \<^verbatim>\<open>ctx.addIssue\<close> appends one issue.  A callback is modelled as
  the function from \<open>data\<close> to the list of issues it adds, in order.  A property of
  \<open>data\<close> that may be \<^verbatim>\<open>undefined\<close> is an \<open>option\<close>, \<open>None\<close> for \<^verbatim>\<open>undefined\<close>.
\<close>

record Issue =
  path :: "string list"
  message :: string

text \<open>\<^verbatim>\<open>String.prototype.trim\<close>: white space is removed at both ends (the ASCII white
  space characters; \<open>string\<close> has no others).\<close>

definition trim :: "string \<Rightarrow> string" where
  "trim s = rev (dropWhile isWhiteSpace (rev (dropWhile isWhiteSpace s)))"

text \<open>A dependent field is blank when it is absent or its trimmed value is empty;
  \<open>issuesAt field issues\<close> are the issues against one field.\<close>

definition blank :: "string option \<Rightarrow> bool" where
  "blank v = (case v of None \<Rightarrow> True | Some s \<Rightarrow> trim s = '''')"

definition issuesAt :: "string \<Rightarrow> Issue list \<Rightarrow> Issue list" where
  "issuesAt field issues = filter (\<lambda>i. path i = [field]) issues"

subsection \<open>Lens order and optical lab order\<close>

text \<open>
  \<^verbatim>\<open>lensOrderSchema\<close> (\<^verbatim>\<open>src/unnamed/part_000\<close>) and the \<^verbatim>\<open>formSchema\<close> of
  \<^verbatim>\<open>OpticalLabOrderForm\<close> (\<^verbatim>\<open>src/Prescription_Fees_Settings.tsx\<close>).  The lab order has
  six of the lens order's fields, so the lens order's values extend the lab order's.
  The test \<^verbatim>\<open>!data.lensTreatmentOther?.trim()\<close> holds when the field is absent or its trimmed
  value is the empty string.
\<close>

record OpticalLabOrderFormValues =
  lensSupply :: "string option"
  lensTreatment :: "string option"
  lensTreatmentOther :: "string option"
  frame :: "string option"
  frameOther :: "string option"
  otherInstructions :: "string option"

record LensOrderFormValues = OpticalLabOrderFormValues +
  rightOdSph :: "string option"
  rightOdCyl :: "string option"
  rightOdAxis :: "string option"
  leftOsSph :: "string option"
  leftOsCyl :: "string option"
  leftOsAxis :: "string option"
  add :: "string option"
  lensType :: "string option"
  lensMaterial :: "string option"
  lensThickness :: "string option"
  lensColour :: "string option"
  lensCoating :: "string option"
  lensUse :: "string option"
  arCoating :: "string option"



subsection \<open>Payment\<close>

text \<open>
  JavaScript numbers are modelled as rationals with the two infinities and NaN; the
  rounding of binary floating point is not modelled.  \<open>num_less\<close> is \<^verbatim>\<open><\<close>,
  \<open>num_greater\<close> is \<^verbatim>\<open>>\<close>, \<open>num_less_eq\<close> is \<^verbatim>\<open><=\<close> and \<open>num_minus\<close> is binary
  \<^verbatim>\<open>-\<close>.
\<close>

datatype number = Finite rat | PosInf | NegInf | NaN

fun num_less :: "number \<Rightarrow> number \<Rightarrow> bool" where
  "num_less NaN _ = False"
| "num_less _ NaN = False"
| "num_less (Finite a) (Finite b) = (a < b)"
| "num_less PosInf _ = False"
| "num_less _ PosInf = True"
| "num_less _ NegInf = False"
| "num_less NegInf _ = True"

definition num_greater :: "number \<Rightarrow> number \<Rightarrow> bool" where
  "num_greater x y = num_less y x"






text \<open>\<^verbatim>\<open>paymentFormSchema\<close> of \<^verbatim>\<open>OrderPaymentForm\<close> (second document of
  \<^verbatim>\<open>src/Incident-Report-v2.tsx\<close>).  \<open>amountPaidToday\<close> is the number after
  \<^verbatim>\<open>z.coerce\<close>.\<close>

record PaymentFormValues =
  orderId :: string
  customerName :: string
  orderDate :: string
  frameSubtotal :: number
  lensesSubtotal :: number
  repairsSubtotal :: number
  totalOrderAmount :: number
  paymentsMadeToDate :: number
  balance :: number
  amountPaidToday :: number
  paymentMethod :: "string option"
  paymentMethodOther :: "string option"
  paymentReferenceNumber :: "string option"
  processedBy :: string
  paymentDate :: string


definition paymentFormSchema_superRefine :: "PaymentFormValues \<Rightarrow> Issue list" where
  "paymentFormSchema_superRefine data =
     (let ctx = [];
          ctx = (if num_greater (amountPaidToday data) (balance data)
                 then ctx @ [\<lparr>path = [''amountPaidToday''],
                              message = ''Amount cannot exceed balance''\<rparr>]
                 else ctx);
          ctx = (if paymentMethod data = Some ''Other''
                 then (if (case paymentMethodOther data of None \<Rightarrow> True | Some s \<Rightarrow> s = '''')
                          \<or> (case paymentMethodOther data of None \<Rightarrow> False | Some s \<Rightarrow> trim s = '''')
                       then ctx @ [\<lparr>path = [''paymentMethodOther''],
                                    message = ''Please specify the other payment method''\<rparr>]
                       else ctx)
                 else ctx);
          ctx = (if (paymentMethod data = Some ''Card'' \<or> paymentMethod data = Some ''Bank Transfer'')
                    \<and> ((case paymentReferenceNumber data of None \<Rightarrow> True | Some s \<Rightarrow> s = '''')
                       \<or> (case paymentReferenceNumber data of None \<Rightarrow> False
                           | Some s \<Rightarrow> trim s = ''''))
                 then ctx @ [\<lparr>path = [''paymentReferenceNumber''],
                              message = ''Payment reference is required for this method''\<rparr>]
                 else ctx)
      in ctx)"


subsection \<open>Incident report\<close>

text \<open>\<^verbatim>\<open>formSchema\<close> of \<^verbatim>\<open>IncidentReportForm\<close> (\<^verbatim>\<open>src/Incident-Report-v2.tsx\<close>) with its
  three chained \<^verbatim>\<open>refine\<close> calls; a refinement that returns false adds one issue at
  its path.\<close>

record Person =
  firstName :: string
  lastName :: string
  role :: "string option"
  personPhone :: "string option"
  personEmail :: "string option"

record Witness =
  name :: string
  phone :: "string option"
  email :: "string option"

record IncidentReportFormValues =
  dateOfIncident :: string
  timeOfIncident :: string
  location :: string
  reportedByFirstName :: string
  reportedByLastName :: string
  reportedByRole :: "string option"
  contactPhone :: "string option"
  contactEmail :: "string option"
  persons :: "Person list"
  incidentType :: "string option"
  incidentDescription :: string
  wasInjured :: "string option"
  injuryDescription :: "string option"
  firstAid :: "string option"
  medicalTreatment :: "string option"
  treatedBy :: "string option"
  witnesses :: "Witness list"
  immediateActions :: "string option"
  reportedTo :: "string option"
  dateReported :: "string option"
  actionsPlanned :: "string option"
  followUp :: "string option"
  followUpBy :: "string option"
  attachments :: "string list option"





subsection \<open>Conditional requirements\<close>

lemma trim_Nil [simp]: "trim '''' = ''''"
  by (simp add: trim_def)


lemma blank_iff_empty_or_trim:
  "blank v \<longleftrightarrow> (case v of None \<Rightarrow> True | Some s \<Rightarrow> s = '''')
      \<or> (case v of None \<Rightarrow> False | Some s \<Rightarrow> trim s = '''')"
  by (auto simp: blank_def split: option.splits)


lemma num_greater_Finite [simp]: "num_greater (Finite a) (Finite b) \<longleftrightarrow> b < a"
  by (simp add: num_greater_def)




text \<open>The mock order of the payment form with its default entries.\<close>

definition mockPayment :: PaymentFormValues where
  "mockPayment =
     \<lparr>orderId = ''ORD-12345'', customerName = ''Jane Doe'', orderDate = ''2025-01-10'',
      frameSubtotal = Finite 120, lensesSubtotal = Finite 80, repairsSubtotal = Finite 0,
      totalOrderAmount = Finite 200, paymentsMadeToDate = Finite 50, balance = Finite 150,
      amountPaidToday = Finite 0, paymentMethod = None, paymentMethodOther = Some '''',
      paymentReferenceNumber = Some '''', processedBy = '''', paymentDate = ''2025-01-10''\<rparr>"


text \<open>
  Claim C10.  The payment refinement adds an issue against \<^verbatim>\<open>paymentReferenceNumber\<close>
  when the payment method is "Card" or "Bank Transfer" and the reference is blank after
  trimming, and adds none for any other method or a reference that is not blank.
\<close>

theorem payment_reference_required:
  "issuesAt ''paymentReferenceNumber'' (paymentFormSchema_superRefine data) =
     (if (paymentMethod data = Some ''Card'' \<or> paymentMethod data = Some ''Bank Transfer'')
         \<and> blank (paymentReferenceNumber data)
      then [\<lparr>path = [''paymentReferenceNumber''],
             message = ''Payment reference is required for this method''\<rparr>]
      else [])"
  by (simp add: paymentFormSchema_superRefine_def issuesAt_def Let_def blank_iff_empty_or_trim)

text \<open>The theorem at the method "Card" with a reference of two spaces, and at "Cash".\<close>

theorem payment_reference_required_witness:
  "paymentMethod (mockPayment\<lparr>paymentMethod := Some ''Card'', paymentReferenceNumber := Some ''  ''\<rparr>)
     = Some ''Card''
   \<and> blank (Some ''  '')
   \<and> issuesAt ''paymentReferenceNumber''
       (paymentFormSchema_superRefine
          (mockPayment\<lparr>paymentMethod := Some ''Card'', paymentReferenceNumber := Some ''  ''\<rparr>))
     = [\<lparr>path = [''paymentReferenceNumber''],
         message = ''Payment reference is required for this method''\<rparr>]
   \<and> issuesAt ''paymentReferenceNumber''
       (paymentFormSchema_superRefine
          (mockPayment\<lparr>paymentMethod := Some ''Cash'', paymentReferenceNumber := Some ''  ''\<rparr>))
     = []"
proof -
  have b: "blank (Some ''  '')" by code_simp
  show ?thesis
    using payment_reference_required[of
        "mockPayment\<lparr>paymentMethod := Some ''Card'', paymentReferenceNumber := Some ''  ''\<rparr>"]
      payment_reference_required[of
        "mockPayment\<lparr>paymentMethod := Some ''Cash'', paymentReferenceNumber := Some ''  ''\<rparr>"]
      b
    by (simp add: mockPayment_def)
qed







subsection \<open>Rounding to the cent\<close>





subsection \<open>The payload of the incident report\<close>





















end
